theory Spec2Isabelle
  imports Complex_Main
begin

section \<open>JavaScript containers\<close>

text \<open>
  A JavaScript \<open>Map\<close> iterates in insertion order. \<open>set\<close> on a key that is present
  replaces the value where the key stands, \<open>set\<close> on a new key appends, \<open>delete\<close>
  removes the entry, and \<open>get\<close> on a missing key gives \<open>undefined\<close> (here \<open>None\<close>).
  The map is an association list that holds each key at most once.
\<close>

type_synonym ('k, 'v) js_map = "('k \<times> 'v) list"

fun Map_get :: "('k, 'v) js_map \<Rightarrow> 'k \<Rightarrow> 'v option" where
  "Map_get [] k = None"
| "Map_get ((k', v) # m) k = (if k' = k then Some v else Map_get m k)"

fun Map_set :: "'k \<Rightarrow> 'v \<Rightarrow> ('k, 'v) js_map \<Rightarrow> ('k, 'v) js_map" where
  "Map_set k v [] = [(k, v)]"
| "Map_set k v ((k', v') # m) = (if k' = k then (k, v) # m else (k', v') # Map_set k v m)"

fun Map_delete :: "'k \<Rightarrow> ('k, 'v) js_map \<Rightarrow> ('k, 'v) js_map" where
  "Map_delete k [] = []"
| "Map_delete k ((k', v') # m) = (if k' = k then Map_delete k m else (k', v') # Map_delete k m)"

definition Map_keys :: "('k, 'v) js_map \<Rightarrow> 'k list" where
  "Map_keys m = map fst m"

definition Map_values :: "('k, 'v) js_map \<Rightarrow> 'v list" where
  "Map_values m = map snd m"

definition Map_size :: "('k, 'v) js_map \<Rightarrow> nat" where
  "Map_size m = length m"

text \<open>
  \<open>Array.prototype.indexOf\<close>: the first index holding the element, \<open>-1\<close> when there is
  none. \<open>splice(start, 1)\<close>: a negative \<open>start\<close> counts from the end (so \<open>-1\<close> is the
  last element), and one element is removed there when there is one.
\<close>

fun indexOf :: "'a list \<Rightarrow> 'a \<Rightarrow> int" where
  "indexOf [] x = - 1"
| "indexOf (y # ys) x =
     (if y = x then 0 else (let i = indexOf ys x in if i < 0 then - 1 else i + 1))"

definition splice1 :: "int \<Rightarrow> 'a list \<Rightarrow> 'a list" where
  "splice1 start xs =
     (let len = int (length xs);
          i = (if start < 0 then max (len + start) 0 else min start len)
      in take (nat i) xs @ drop (nat i + 1) xs)"

section \<open>RayCast\<close>

text \<open>
  A pickable \<open>THREE.Object3D\<close> is known by its identity. \<open>raycastObjectMap\<close> maps an
  owner name to the array of its objects. The code creates that array once per name
  (\<open>set(name, [raycastObject])\<close> when \<open>get(name)\<close> is undefined) and never deletes an
  entry, so the name stands for the array: \<open>Arr name\<close> is a reference to the array that
  the map holds for \<open>name\<close>. An element of \<open>raycastObjects\<close> is an object, or, after
  \<open>remove\<close> has rebuilt the list from \<open>raycastObjectMap.values()\<close>, such an array.
\<close>

type_synonym obj = nat

datatype pick = Obj obj | Arr string

record RayCast =
  raycastObjectMap :: "(string, obj list) js_map"
  raycastObjects :: "pick list"

definition RayCast_new :: RayCast where
  "RayCast_new = \<lparr>raycastObjectMap = [], raycastObjects = []\<rparr>"

definition RayCast_add :: "string \<Rightarrow> obj \<Rightarrow> RayCast \<Rightarrow> RayCast" where
  "RayCast_add name raycastObject r =
     (let r1 = (case Map_get (raycastObjectMap r) name of
                  Some objects \<Rightarrow>
                    r\<lparr>raycastObjectMap :=
                        Map_set name (objects @ [raycastObject]) (raycastObjectMap r)\<rparr>
                | None \<Rightarrow>
                    r\<lparr>raycastObjectMap := Map_set name [raycastObject] (raycastObjectMap r)\<rparr>)
      in r1\<lparr>raycastObjects := raycastObjects r1 @ [Obj raycastObject]\<rparr>)"

definition RayCast_remove :: "string \<Rightarrow> RayCast \<Rightarrow> RayCast" where
  "RayCast_remove name r =
     (case Map_get (raycastObjectMap r) name of
        None \<Rightarrow> r
      | Some objects \<Rightarrow>
          (let r1 = r\<lparr>raycastObjects :=
                       foldl (\<lambda>ros raycastObject. splice1 (indexOf ros (Obj raycastObject)) ros)
                         (raycastObjects r) objects\<rparr>
           in r1\<lparr>raycastObjects := map Arr (Map_keys (raycastObjectMap r1))\<rparr>))"

text \<open>
  The objects a list of picks holds: an object itself, and for an array every object in
  the array the map has for that name.
\<close>

definition held :: "RayCast \<Rightarrow> obj list" where
  "held r =
     concat (map (\<lambda>p. case p of
                        Obj ob \<Rightarrow> [ob]
                      | Arr n \<Rightarrow> (case Map_get (raycastObjectMap r) n of
                                    None \<Rightarrow> [] | Some objects \<Rightarrow> objects))
                 (raycastObjects r))"

section \<open>First person camera\<close>

text \<open>
  The camera of \<open>FirstPersonCameraManagerCore\<close>: position and Euler rotation of the
  \<open>THREE.PerspectiveCamera\<close>, and its aspect ratio. JavaScript numbers are taken as
  reals. \<open>Maths.toDegrees\<close> comes from \<open>helpers/maths.js\<close>, which is not among the
  sources, so \<open>onMoveEvent\<close> takes it as a parameter.
\<close>

record Camera =
  position_x :: real
  position_y :: real
  position_z :: real
  rotation_x :: real
  rotation_y :: real
  rotation_z :: real
  aspect :: real

definition onMoveEvent :: "(real \<Rightarrow> real) \<Rightarrow> real \<Rightarrow> real \<Rightarrow> Camera \<Rightarrow> Camera" where
  "onMoveEvent toDegrees deltaX deltaY camera =
     (let pitchDeg = toDegrees (rotation_x camera - deltaY);
          camera1 = (if pitchDeg > - 85 \<and> pitchDeg < 85
                     then camera\<lparr>rotation_x := rotation_x camera - deltaY\<rparr>
                     else camera)
      in camera1\<lparr>rotation_y := rotation_y camera1 - deltaX\<rparr>)"

text \<open>A sequence of move events \<open>(deltaX, deltaY)\<close>, applied first to last.\<close>

definition onMoveEvents :: "(real \<Rightarrow> real) \<Rightarrow> (real \<times> real) list \<Rightarrow> Camera \<Rightarrow> Camera" where
  "onMoveEvents toDegrees evs camera =
     foldl (\<lambda>c (deltaX, deltaY). onMoveEvent toDegrees deltaX deltaY c) camera evs"

text \<open>
  Modelled from the spec: \<open>Maths.toDegrees\<close> of \<open>helpers/maths.js\<close>, which is not among
  the sources; the spec measures the pitch in degrees, so it is taken as the conversion
  from radians. It is used only to run the theorems on a concrete camera.
\<close>

definition Maths_toDegrees :: "real \<Rightarrow> real" where
  "Maths_toDegrees radians = radians * 180 / pi"

text \<open>A camera at the origin that looks level, for running the theorems.\<close>

definition camera0 :: Camera where
  "camera0 = \<lparr>position_x = 0, position_y = 0, position_z = 0,
              rotation_x = 0, rotation_y = 0, rotation_z = 0, aspect = 1\<rparr>"

section \<open>Scene objects\<close>

text \<open>
  A scene object is a JavaScript object, known by its identity. The scene manager reads
  it only through \<open>name\<close> and the methods \<open>isDrawable\<close>, \<open>isReady\<close>, \<open>getDrawables\<close>
  and \<open>getLights\<close>, whose answers may change between two calls of the manager (a model
  becomes ready when it has loaded). So every operation of the manager takes the
  answers of the moment, a function from identities to \<open>SceneObject\<close> records. A
  drawable is \<open>{object, isRayCastable}\<close>, a light is \<open>{object}\<close>. A
  \<open>SceneObjectGroup\<close> is one such object too: it is drawable, ready when all its
  children are, and answers with the lists it has collected from them.
\<close>

type_synonym oid = nat

record drawable =
  d_object :: obj
  isRayCastable :: bool

record light =
  l_object :: obj

record SceneObject =
  name :: string
  isDrawable :: bool
  isReady :: bool
  getDrawables :: "drawable list"
  getLights :: "light list"

section \<open>SceneManager\<close>

text \<open>
  The manager calls out to the hooks of scene objects and to the \<open>SceneRenderer\<close>
  (whose source is not among the files). Those calls are the observable effect: the
  state keeps them, in order, in \<open>calls\<close>. A hook is the call and nothing more: what a
  hook's body does, such as calling back into the manager, is not part of the manager's
  operation. The payload of a message is any value, a type parameter here.
\<close>

datatype 'd call =
    OnMessage oid string 'd
  | OnSceneStart oid
  | OnSceneRender oid
  | OnSceneEnd oid
  | SetAspectRatio oid real real
  | UpdateMatrices oid
  | SceneRenderer_add obj bool
  | SceneRenderer_remove obj
  | SceneRenderer_render
  | SceneRenderer_outlineObjects "obj list" oid

record 'd message =
  msg_from :: string
  msg_to :: string
  msg_data :: 'd

record 'd SceneManager =
  raycaster :: RayCast
  activeCameraManager :: "oid option"
  sceneObjectMap :: "(string, oid) js_map"
  inactiveObjNameMap :: "(string, unit) js_map"
  messageMap :: "(string, 'd message list) js_map"
  calls :: "'d call list"

datatype error = TypeError

definition SceneManager_new :: "'d SceneManager" where
  "SceneManager_new =
     \<lparr>raycaster = RayCast_new, activeCameraManager = None, sceneObjectMap = [],
      inactiveObjNameMap = [], messageMap = [], calls = []\<rparr>"

definition call :: "'d call \<Rightarrow> 'd SceneManager \<Rightarrow> 'd SceneManager" where
  "call c s = s\<lparr>calls := calls s @ [c]\<rparr>"

definition addToScene :: "(oid \<Rightarrow> SceneObject) \<Rightarrow> oid \<Rightarrow> 'd SceneManager \<Rightarrow> 'd SceneManager" where
  "addToScene h sceneObject s =
     (let drawables = getDrawables (h sceneObject);
          lights = getLights (h sceneObject);
          s1 = foldl (\<lambda>s drawable.
                  (let s' = call (SceneRenderer_add (d_object drawable) (length lights > 0)) s
                   in if isRayCastable drawable
                      then s'\<lparr>raycaster :=
                               RayCast_add (name (h sceneObject)) (d_object drawable) (raycaster s')\<rparr>
                      else s'))
                s drawables
      in foldl (\<lambda>s light. call (SceneRenderer_add (l_object light) False) s) s1 lights)"

definition removeFromScene :: "(oid \<Rightarrow> SceneObject) \<Rightarrow> oid \<Rightarrow> 'd SceneManager \<Rightarrow> 'd SceneManager" where
  "removeFromScene h sceneObject s =
     (let drawables = getDrawables (h sceneObject);
          lights = getLights (h sceneObject);
          s1 = foldl (\<lambda>s drawable.
                  (let s' = call (SceneRenderer_remove (d_object drawable)) s
                   in if isRayCastable drawable
                      then s'\<lparr>raycaster := RayCast_remove (name (h sceneObject)) (raycaster s')\<rparr>
                      else s'))
                s drawables
      in foldl (\<lambda>s light. call (SceneRenderer_remove (l_object light)) s) s1 lights)"

definition checkForMessages :: "(oid \<Rightarrow> SceneObject) \<Rightarrow> oid \<Rightarrow> 'd SceneManager \<Rightarrow> 'd SceneManager" where
  "checkForMessages h sceneObject s =
     (case Map_get (messageMap s) (name (h sceneObject)) of
        None \<Rightarrow> s
      | Some messages \<Rightarrow>
          (let s1 = foldl (\<lambda>s message.
                       call (OnMessage sceneObject (msg_from message) (msg_data message)) s)
                     s messages
           in s1\<lparr>messageMap := Map_delete (name (h sceneObject)) (messageMap s1)\<rparr>))"

definition register :: "(oid \<Rightarrow> SceneObject) \<Rightarrow> oid \<Rightarrow> 'd SceneManager \<Rightarrow> 'd SceneManager" where
  "register h sceneObject s =
     (let s1 = s\<lparr>sceneObjectMap :=
                   Map_set (name (h sceneObject)) sceneObject (sceneObjectMap s)\<rparr>;
          s2 = (if isDrawable (h sceneObject) \<and> \<not> isReady (h sceneObject)
                then s1\<lparr>inactiveObjNameMap :=
                          Map_set (name (h sceneObject)) () (inactiveObjNameMap s1)\<rparr>
                else if isReady (h sceneObject)
                then call (OnSceneStart sceneObject) (addToScene h sceneObject s1)
                else s1)
      in checkForMessages h sceneObject s2)"

definition unregister :: "(oid \<Rightarrow> SceneObject) \<Rightarrow> string \<Rightarrow> 'd SceneManager \<Rightarrow> 'd SceneManager" where
  "unregister h nm s =
     (case Map_get (sceneObjectMap s) nm of
        None \<Rightarrow> s
      | Some sceneObject \<Rightarrow>
          (let s1 = call (OnSceneEnd sceneObject) (removeFromScene h sceneObject s)
           in s1\<lparr>sceneObjectMap := Map_delete nm (sceneObjectMap s1)\<rparr>))"

definition broadcastTo :: "string \<Rightarrow> string \<Rightarrow> 'd \<Rightarrow> 'd SceneManager \<Rightarrow> 'd SceneManager" where
  "broadcastTo from_name to_name data s =
     (case Map_get (sceneObjectMap s) to_name of
        Some sceneObject \<Rightarrow> call (OnMessage sceneObject from_name data) s
      | None \<Rightarrow>
          (case Map_get (messageMap s) to_name of
             None \<Rightarrow>
               s\<lparr>messageMap :=
                   Map_set to_name [\<lparr>msg_from = from_name, msg_to = to_name, msg_data = data\<rparr>]
                     (messageMap s)\<rparr>
           | Some messages \<Rightarrow>
               s\<lparr>messageMap :=
                   Map_set to_name
                     (messages @ [\<lparr>msg_from = from_name, msg_to = to_name, msg_data = data\<rparr>])
                     (messageMap s)\<rparr>))"

text \<open>
  \<open>broadcastToAll\<close> walks the keys of the registry and looks each one up again;
  calling \<open>onMessage\<close> on a lookup that gave \<open>undefined\<close> would throw a TypeError.
\<close>

fun broadcastLoop ::
  "string \<Rightarrow> 'd \<Rightarrow> string list \<Rightarrow> 'd SceneManager \<Rightarrow> (error \<times> 'd SceneManager) + 'd SceneManager" where
  "broadcastLoop from_name data [] s = Inr s"
| "broadcastLoop from_name data (sceneObjectKey # ks) s =
     (if sceneObjectKey \<noteq> from_name
      then (case Map_get (sceneObjectMap s) sceneObjectKey of
              None \<Rightarrow> Inl (TypeError, s)
            | Some ob \<Rightarrow> broadcastLoop from_name data ks (call (OnMessage ob from_name data) s))
      else broadcastLoop from_name data ks s)"

definition broadcastToAll ::
  "string \<Rightarrow> 'd \<Rightarrow> 'd SceneManager \<Rightarrow> (error \<times> 'd SceneManager) + 'd SceneManager" where
  "broadcastToAll from_name data s =
     broadcastLoop from_name data (Map_keys (sceneObjectMap s)) s"

definition notifyObjects :: "'d SceneManager \<Rightarrow> 'd SceneManager" where
  "notifyObjects s =
     foldl (\<lambda>s sceneObject. call (OnSceneRender sceneObject) s) s (Map_values (sceneObjectMap s))"

text \<open>
  \<open>queryReadyObjects\<close> walks the names of the awaiting set. \<open>sceneObject.isReady()\<close> on
  a name the registry no longer has throws a TypeError, which leaves the loop with the
  state reached so far. Deleting the entry under the iterator only drops the key just
  visited, so the walk is over the keys present at its start.
\<close>

fun queryLoop ::
  "(oid \<Rightarrow> SceneObject) \<Rightarrow> string list \<Rightarrow> 'd SceneManager \<Rightarrow> (error \<times> 'd SceneManager) + 'd SceneManager" where
  "queryLoop h [] s = Inr s"
| "queryLoop h (sceneObjectName # ns) s =
     (case Map_get (sceneObjectMap s) sceneObjectName of
        None \<Rightarrow> Inl (TypeError, s)
      | Some sceneObject \<Rightarrow>
          (if isReady (h sceneObject)
           then (let s1 = call (OnSceneStart sceneObject) (addToScene h sceneObject s)
                 in queryLoop h ns
                      (s1\<lparr>inactiveObjNameMap :=
                            Map_delete sceneObjectName (inactiveObjNameMap s1)\<rparr>))
           else queryLoop h ns s))"

definition queryReadyObjects ::
  "(oid \<Rightarrow> SceneObject) \<Rightarrow> 'd SceneManager \<Rightarrow> (error \<times> 'd SceneManager) + 'd SceneManager" where
  "queryReadyObjects h s =
     (if Map_size (inactiveObjNameMap s) > 0
      then queryLoop h (Map_keys (inactiveObjNameMap s)) s
      else Inr s)"

text \<open>
  One tick of \<open>renderLoop\<close>, in a window of the given inner width and height. The tick
  ends by asking the host for the next one, which the model leaves to its caller; a
  TypeError leaves the tick before that request.
\<close>

definition renderLoop ::
  "(oid \<Rightarrow> SceneObject) \<Rightarrow> real \<Rightarrow> real \<Rightarrow> 'd SceneManager \<Rightarrow> (error \<times> 'd SceneManager) + 'd SceneManager" where
  "renderLoop h innerWidth innerHeight s =
     (case activeCameraManager s of
        None \<Rightarrow> Inr s
      | Some cam \<Rightarrow>
          (let s1 = call (UpdateMatrices cam) (call (SetAspectRatio cam innerWidth innerHeight) s)
           in case queryReadyObjects h s1 of
                Inl e \<Rightarrow> Inl e
              | Inr s2 \<Rightarrow> Inr (notifyObjects (call SceneRenderer_render s2))))"

text \<open>
  Ray casting. The intersection test is \<open>THREE.Raycaster\<close>'s \<open>setFromCamera\<close> and
  \<open>intersectObjects\<close>, a library outside the repository: it is the parameter
  \<open>intersectObjects\<close>, from the point in normalized device coordinates, the camera and
  the list of pickable elements to the hits. A hit is \<open>{distance, object, ...}\<close>.
  \<open>cameraManager.getCamera()\<close> on a manager that is \<open>null\<close> throws a TypeError. A
  raster coordinate that is \<open>undefined\<close> is \<open>None\<close>; \<open>outlineNearest\<close> is \<open>None\<close> when
  it is \<open>undefined\<close> or \<open>null\<close>.
\<close>

record hit =
  distance :: real
  h_object :: obj

definition raycastFromCamera ::
  "(real \<times> real \<Rightarrow> oid \<Rightarrow> pick list \<Rightarrow> hit list) \<Rightarrow> real \<times> real \<Rightarrow> oid option \<Rightarrow> RayCast \<Rightarrow>
   error + hit list" where
  "raycastFromCamera intersectObjects ndcCoord cameraManager r =
     (case cameraManager of
        None \<Rightarrow> Inl TypeError
      | Some cm \<Rightarrow>
          (let hitObjects = intersectObjects ndcCoord cm (raycastObjects r)
           in Inr (if length hitObjects > 0 then hitObjects else [])))"

definition shootRayFromCamera ::
  "(real \<times> real \<Rightarrow> oid \<Rightarrow> pick list \<Rightarrow> hit list) \<Rightarrow> real \<Rightarrow> real \<Rightarrow> (real \<times> real) option \<Rightarrow>
   bool option \<Rightarrow> 'd SceneManager \<Rightarrow> (error \<times> 'd SceneManager) + (hit list \<times> 'd SceneManager)" where
  "shootRayFromCamera intersectObjects innerWidth innerHeight rasterCoord outlineNearest s =
     (case rasterCoord of
        None \<Rightarrow> Inr ([], s)
      | Some (x, y) \<Rightarrow>
          (if x \<ge> 0 \<and> x < innerWidth \<and> y \<ge> 0 \<and> y < innerHeight
           then (let ndcX = (x / innerWidth) * 2 - 1;
                     ndcY = - (y / innerHeight) * 2 + 1
                 in case raycastFromCamera intersectObjects (ndcX, ndcY)
                           (activeCameraManager s) (raycaster s) of
                      Inl e \<Rightarrow> Inl (e, s)
                    | Inr hitPointData \<Rightarrow>
                        (if outlineNearest = Some True \<and> length hitPointData > 0
                         then (case activeCameraManager s of
                                 None \<Rightarrow> Inl (TypeError, s)
                               | Some cam \<Rightarrow>
                                   Inr (hitPointData,
                                        call (SceneRenderer_outlineObjects
                                                [h_object (hitPointData ! 0)] cam) s))
                         else Inr (hitPointData, s)))
           else Inr ([], s)))"

section \<open>What the operations call\<close>

text \<open>
  Names for what the theorems speak of: the queue the mailbox holds for a name (empty
  when the map has no entry), the hook calls that deliver a list of messages to an
  object, and the renderer calls that \<open>addToScene\<close> and \<open>removeFromScene\<close> make for
  an object.
\<close>

definition pending :: "'d SceneManager \<Rightarrow> string \<Rightarrow> 'd message list" where
  "pending s n = (case Map_get (messageMap s) n of None \<Rightarrow> [] | Some messages \<Rightarrow> messages)"

definition deliveries :: "oid \<Rightarrow> 'd message list \<Rightarrow> 'd call list" where
  "deliveries ob messages = map (\<lambda>m. OnMessage ob (msg_from m) (msg_data m)) messages"

definition add_calls :: "SceneObject \<Rightarrow> 'd call list" where
  "add_calls so =
     map (\<lambda>d. SceneRenderer_add (d_object d) (getLights so \<noteq> [])) (getDrawables so)
     @ map (\<lambda>l. SceneRenderer_add (l_object l) False) (getLights so)"

definition remove_calls :: "SceneObject \<Rightarrow> 'd call list" where
  "remove_calls so =
     map (\<lambda>d. SceneRenderer_remove (d_object d)) (getDrawables so)
     @ map (\<lambda>l. SceneRenderer_remove (l_object l)) (getLights so)"

section \<open>A sample scene\<close>

text \<open>
  Concrete data for running the theorems: a camera manager (object 0), a model with two
  pickable meshes (object 1) and a lamp (object 2). While the scene is loading the model
  and the lamp report not ready; once it has loaded every object reports ready.
  \<open>manager0\<close> is the manager with only the camera manager registered and active;
  \<open>manager1\<close> is the manager after the three have been registered, loaded, with the
  camera manager active. \<open>intersect0\<close> stands for the library's intersection test: it
  hits every object that is an element of the list, at a distance equal to its number.
\<close>

definition scene_loaded :: "oid \<Rightarrow> SceneObject" where
  "scene_loaded ob =
     (if ob = 1 then \<lparr>name = ''Model'', isDrawable = True, isReady = True,
                      getDrawables = [\<lparr>d_object = 7, isRayCastable = True\<rparr>,
                                      \<lparr>d_object = 8, isRayCastable = True\<rparr>],
                      getLights = []\<rparr>
      else if ob = 2 then \<lparr>name = ''Lamp'', isDrawable = False, isReady = True,
                           getDrawables = [], getLights = [\<lparr>l_object = 9\<rparr>]\<rparr>
      else \<lparr>name = ''Camera'', isDrawable = False, isReady = True,
            getDrawables = [], getLights = []\<rparr>)"

definition scene_loading :: "oid \<Rightarrow> SceneObject" where
  "scene_loading ob =
     (if ob = 1 \<or> ob = 2 then (scene_loaded ob)\<lparr>isReady := False\<rparr> else scene_loaded ob)"

definition manager0 :: "nat SceneManager" where
  "manager0 = (register scene_loading 0 SceneManager_new)\<lparr>activeCameraManager := Some 0\<rparr>"

definition manager1 :: "nat SceneManager" where
  "manager1 =
     (register scene_loaded 2 (register scene_loaded 1 (register scene_loaded 0 SceneManager_new)))
       \<lparr>activeCameraManager := Some 0\<rparr>"

definition intersect0 :: "real \<times> real \<Rightarrow> oid \<Rightarrow> pick list \<Rightarrow> hit list" where
  "intersect0 ndcCoord cameraManager picks =
     concat (map (\<lambda>p. case p of Obj ob \<Rightarrow> [\<lparr>distance = real ob, h_object = ob\<rparr>] | Arr n \<Rightarrow> [])
                 picks)"

section \<open>Facts about the containers and the scene calls\<close>

lemma Map_get_set: "Map_get (Map_set k v m) k' = (if k' = k then Some v else Map_get m k')"
  by (induction m) auto

lemma Map_get_delete: "Map_get (Map_delete k m) k' = (if k' = k then None else Map_get m k')"
  by (induction m) auto

lemma Map_get_keys: "(Map_get m k = None) = (k \<notin> set (Map_keys m))"
  by (induction m) (auto simp: Map_keys_def split: if_splits)

lemma Map_delete_absent: "Map_get m k = None \<Longrightarrow> Map_delete k m = m"
  by (induction m) (auto split: if_splits)

lemma Map_keys_set:
  "Map_keys (Map_set k v m) = (if k \<in> set (Map_keys m) then Map_keys m else Map_keys m @ [k])"
  by (induction m) (force simp: Map_keys_def)+

lemma Map_keys_delete: "Map_keys (Map_delete k m) = filter (\<lambda>x. x \<noteq> k) (Map_keys m)"
  by (induction m) (auto simp: Map_keys_def)

lemma foldl_call:
  "foldl (\<lambda>s x. call (f x) s) s xs = s\<lparr>calls := calls s @ map f xs\<rparr>"
  by (induction xs arbitrary: s) (simp_all add: call_def)

lemma foldl_call_raycaster:
  "foldl (\<lambda>s d. if P d then (call (c d) s)\<lparr>raycaster := g d (raycaster (call (c d) s))\<rparr>
                 else call (c d) s) s ds
   = s\<lparr>raycaster := foldl (\<lambda>r d. g d r) (raycaster s) (filter P ds),
       calls := calls s @ map c ds\<rparr>"
  by (induction ds arbitrary: s) (simp_all add: call_def)

lemma addToScene_eq:
  "addToScene h ob s
   = s\<lparr>raycaster := foldl (\<lambda>r d. RayCast_add (name (h ob)) (d_object d) r) (raycaster s)
                       (filter isRayCastable (getDrawables (h ob))),
       calls := calls s @ add_calls (h ob)\<rparr>"
  by (simp add: addToScene_def Let_def foldl_call add_calls_def
      foldl_call_raycaster [where g = "\<lambda>d. RayCast_add (name (h ob)) (d_object d)"])

lemma removeFromScene_eq:
  "removeFromScene h ob s
   = s\<lparr>raycaster := foldl (\<lambda>r d. RayCast_remove (name (h ob)) r) (raycaster s)
                       (filter isRayCastable (getDrawables (h ob))),
       calls := calls s @ remove_calls (h ob)\<rparr>"
  by (simp add: removeFromScene_def Let_def foldl_call remove_calls_def
      foldl_call_raycaster [where g = "\<lambda>d. RayCast_remove (name (h ob))"])

lemma checkForMessages_eq:
  "checkForMessages h ob s
   = s\<lparr>messageMap := Map_delete (name (h ob)) (messageMap s),
       calls := calls s @ deliveries ob (pending s (name (h ob)))\<rparr>"
  by (simp add: checkForMessages_def pending_def deliveries_def foldl_call Let_def
      Map_delete_absent split: option.split)

lemma register_eq:
  "register h ob s
   = s\<lparr>raycaster :=
         (if isReady (h ob)
          then foldl (\<lambda>r d. RayCast_add (name (h ob)) (d_object d) r) (raycaster s)
                 (filter isRayCastable (getDrawables (h ob)))
          else raycaster s),
       sceneObjectMap := Map_set (name (h ob)) ob (sceneObjectMap s),
       inactiveObjNameMap :=
         (if isDrawable (h ob) \<and> \<not> isReady (h ob)
          then Map_set (name (h ob)) () (inactiveObjNameMap s)
          else inactiveObjNameMap s),
       messageMap := Map_delete (name (h ob)) (messageMap s),
       calls := calls s
                @ (if isReady (h ob) then add_calls (h ob) @ [OnSceneStart ob] else [])
                @ deliveries ob (pending s (name (h ob)))\<rparr>"
  by (simp add: register_def Let_def checkForMessages_eq addToScene_eq call_def pending_def)

lemma unregister_eq:
  "unregister h nm s
   = (case Map_get (sceneObjectMap s) nm of
        None \<Rightarrow> s
      | Some ob \<Rightarrow>
          s\<lparr>raycaster := foldl (\<lambda>r d. RayCast_remove (name (h ob)) r) (raycaster s)
                            (filter isRayCastable (getDrawables (h ob))),
            sceneObjectMap := Map_delete nm (sceneObjectMap s),
            calls := calls s @ remove_calls (h ob) @ [OnSceneEnd ob]\<rparr>)"
  by (simp add: unregister_def Let_def removeFromScene_eq call_def split: option.split)

text \<open>The operations keep the registry a map: no name comes to stand in it twice.\<close>

lemma registry_stays_a_map:
  assumes "distinct (Map_keys (sceneObjectMap s))"
  shows "distinct (Map_keys (sceneObjectMap (register h ob s)))"
    and "distinct (Map_keys (sceneObjectMap (unregister h nm s)))"
    and "distinct (Map_keys (sceneObjectMap (broadcastTo f t d s)))"
  using assms
  by (simp_all add: register_eq unregister_eq broadcastTo_def call_def Map_keys_set
      Map_keys_delete split: option.split)

lemma no_start_in_renderer_calls:
  "OnSceneStart ob \<notin> set (add_calls so)" "OnSceneStart ob \<notin> set (remove_calls so)"
  "OnSceneStart ob \<notin> set (deliveries ob' ms)"
  by (auto simp: add_calls_def remove_calls_def deliveries_def)

lemma manager1_eq:
  "manager1 =
     \<lparr>raycaster = \<lparr>raycastObjectMap = [(''Model'', [7, 8])], raycastObjects = [Obj 7, Obj 8]\<rparr>,
      activeCameraManager = Some 0,
      sceneObjectMap = [(''Camera'', 0), (''Model'', 1), (''Lamp'', 2)],
      inactiveObjNameMap = [], messageMap = [],
      calls = [OnSceneStart 0, SceneRenderer_add 7 False, SceneRenderer_add 8 False,
               OnSceneStart 1, SceneRenderer_add 9 False, OnSceneStart 2]\<rparr>"
  by (simp add: manager1_def register_eq scene_loaded_def SceneManager_new_def RayCast_new_def
      RayCast_add_def add_calls_def deliveries_def pending_def)

section \<open>Theorems: first person camera\<close>

text \<open>
  A drag of two radians down from a level camera proposes a pitch of about 114.6
  degrees below the horizon, outside the range.
\<close>

lemma too_steep:
  "\<not> (- 85 < Maths_toDegrees (rotation_x camera0 - 2)
       \<and> Maths_toDegrees (rotation_x camera0 - 2) < 85)"
proof -
  have "pi * 85 < 4 * 85" using pi_less_4 by simp
  then have "85 * pi < 360" by simp
  then have "360 / pi > 85" using pi_gt_zero by (simp add: less_divide_eq)
  then have "Maths_toDegrees (0 - 2) < - 85" by (simp add: Maths_toDegrees_def)
  then show ?thesis by (simp add: camera0_def)
qed

lemma onMoveEvent_pitch_cases:
  "rotation_x (onMoveEvent td dx dy c) = rotation_x c \<or>
   (rotation_x (onMoveEvent td dx dy c) = rotation_x c - dy \<and>
    - 85 < td (rotation_x c - dy) \<and> td (rotation_x c - dy) < 85)"
  by (simp add: onMoveEvent_def Let_def)

lemma onMoveEvent_keeps_pitch_bound:
  assumes "- 85 \<le> td (rotation_x c)" and "td (rotation_x c) \<le> 85"
  shows "- 85 \<le> td (rotation_x (onMoveEvent td dx dy c)) \<and>
         td (rotation_x (onMoveEvent td dx dy c)) \<le> 85"
  using assms onMoveEvent_pitch_cases [of td dx dy c] by auto

lemma onMoveEvents_keeps_pitch_bound:
  "- 85 \<le> td (rotation_x c) \<Longrightarrow> td (rotation_x c) \<le> 85 \<Longrightarrow>
   - 85 \<le> td (rotation_x (onMoveEvents td evs c)) \<and>
   td (rotation_x (onMoveEvents td evs c)) \<le> 85"
proof (induction evs arbitrary: c)
  case Nil
  then show ?case by (simp add: onMoveEvents_def)
next
  case (Cons e evs)
  obtain dx dy where e: "e = (dx, dy)" by (cases e)
  have step: "- 85 \<le> td (rotation_x (onMoveEvent td dx dy c)) \<and>
              td (rotation_x (onMoveEvent td dx dy c)) \<le> 85"
    using Cons.prems onMoveEvent_keeps_pitch_bound [of td c dx dy] by blast
  have "onMoveEvents td (e # evs) c = onMoveEvents td evs (onMoveEvent td dx dy c)"
    by (simp add: onMoveEvents_def e)
  with Cons.IH [of "onMoveEvent td dx dy c"] step show ?case by simp
qed

text \<open>
  C8. Starting from a pitch within 85 degrees either way, the pitch of the first person
  camera stays within 85 degrees either way after any sequence of cursor-drag move
  events; and a single drag whose proposed pitch \<open>rotation.x - deltaY\<close> is not strictly
  inside that range leaves the pitch as it was.
\<close>

theorem C8_pitch_stays_within_85:
  assumes "- 85 \<le> toDegrees (rotation_x camera)"
    and "toDegrees (rotation_x camera) \<le> 85"
  shows "- 85 \<le> toDegrees (rotation_x (onMoveEvents toDegrees evs camera))
         \<and> toDegrees (rotation_x (onMoveEvents toDegrees evs camera)) \<le> 85
         \<and> (\<not> (- 85 < toDegrees (rotation_x camera - deltaY)
                \<and> toDegrees (rotation_x camera - deltaY) < 85)
            \<longrightarrow> rotation_x (onMoveEvent toDegrees deltaX deltaY camera) = rotation_x camera)"
proof -
  have "\<not> (- 85 < toDegrees (rotation_x camera - deltaY)
            \<and> toDegrees (rotation_x camera - deltaY) < 85)
        \<longrightarrow> rotation_x (onMoveEvent toDegrees deltaX deltaY camera) = rotation_x camera"
    by (simp add: onMoveEvent_def Let_def)
  with assms onMoveEvents_keeps_pitch_bound [of toDegrees camera evs] show ?thesis by blast
qed

theorem C8_pitch_stays_within_85_witness:
  "- 85 \<le> Maths_toDegrees (rotation_x camera0)
   \<and> Maths_toDegrees (rotation_x camera0) \<le> 85
   \<and> \<not> (- 85 < Maths_toDegrees (rotation_x camera0 - 2)
          \<and> Maths_toDegrees (rotation_x camera0 - 2) < 85)
   \<and> - 85 \<le> Maths_toDegrees
               (rotation_x (onMoveEvents Maths_toDegrees [(1, 2), (3, - 1)] camera0))
   \<and> Maths_toDegrees
        (rotation_x (onMoveEvents Maths_toDegrees [(1, 2), (3, - 1)] camera0)) \<le> 85
   \<and> rotation_x (onMoveEvent Maths_toDegrees 1 2 camera0) = rotation_x camera0"
proof -
  have h1: "- 85 \<le> Maths_toDegrees (rotation_x camera0)"
    and h2: "Maths_toDegrees (rotation_x camera0) \<le> 85"
    by (simp_all add: camera0_def Maths_toDegrees_def)
  have h3: "\<not> (- 85 < Maths_toDegrees (rotation_x camera0 - 2)
                \<and> Maths_toDegrees (rotation_x camera0 - 2) < 85)"
    by (rule too_steep)
  from C8_pitch_stays_within_85 [of Maths_toDegrees camera0 "[(1, 2), (3, - 1)]" 2 1] h1 h2 h3
  show ?thesis by blast
qed

text \<open>
  C10. Every cursor-drag move event lowers the yaw \<open>rotation.y\<close> by exactly \<open>deltaX\<close>,
  whether or not the pitch change is accepted; when the pitch change is rejected the
  yaw is the only part of the camera that changes.
\<close>

theorem C10_yaw_always_applied:
  "rotation_y (onMoveEvent toDegrees deltaX deltaY camera) = rotation_y camera - deltaX
   \<and> (\<not> (- 85 < toDegrees (rotation_x camera - deltaY)
          \<and> toDegrees (rotation_x camera - deltaY) < 85)
      \<longrightarrow> onMoveEvent toDegrees deltaX deltaY camera
          = camera\<lparr>rotation_y := rotation_y camera - deltaX\<rparr>)"
  by (simp add: onMoveEvent_def Let_def)

theorem C10_yaw_always_applied_witness:
  "\<not> (- 85 < Maths_toDegrees (rotation_x camera0 - 2)
       \<and> Maths_toDegrees (rotation_x camera0 - 2) < 85)
   \<and> rotation_y (onMoveEvent Maths_toDegrees 1 2 camera0) = rotation_y camera0 - 1
   \<and> onMoveEvent Maths_toDegrees 1 2 camera0
     = camera0\<lparr>rotation_y := rotation_y camera0 - 1\<rparr>"
  using C10_yaw_always_applied [of Maths_toDegrees 1 2 camera0] too_steep by blast

section \<open>Theorems: RayCast\<close>

text \<open>
  \<open>remove\<close> on a name the map does not have changes nothing. On a name the map has, the
  splices are overwritten by the rebuild: the list becomes one array per owner of the
  map, the removed owner's among them, since no entry of the map is ever deleted and the
  values are not flattened. Every object added under the name is still held.
\<close>

lemma RayCast_remove_unknown:
  "Map_get (raycastObjectMap r) n = None \<Longrightarrow> RayCast_remove n r = r"
  by (simp add: RayCast_remove_def)

lemma RayCast_remove_known:
  "Map_get (raycastObjectMap r) n = Some objects \<Longrightarrow>
   RayCast_remove n r = r\<lparr>raycastObjects := map Arr (Map_keys (raycastObjectMap r))\<rparr>"
  by (simp add: RayCast_remove_def Let_def)

lemma RayCast_remove_still_held:
  assumes "Map_get (raycastObjectMap r) n = Some objects"
  shows "set objects \<subseteq> set (held (RayCast_remove n r))"
proof -
  from assms have "n \<in> set (Map_keys (raycastObjectMap r))"
    using Map_get_keys [of "raycastObjectMap r" n] by simp
  with assms show ?thesis
    by (auto simp: RayCast_remove_known [OF assms] held_def intro!: bexI [of _ n])
qed

text \<open>
  C2. The claim is that after \<open>RayCast.remove(name)\<close> no object added under that name
  remains in the flat pickable list. The code at \<open>add("a", 1); add("b", 2); remove("a")\<close>:
  the list is \<open>[[1], [2]]\<close>, the array of owner \<open>a\<close> and the array of owner \<open>b\<close>. Object
  1 is still held by the list, inside the array of the owner that was removed, and
  object 2 of the other owner is no longer an element of the list itself.
\<close>

theorem C2_remove_keeps_objects:
  "RayCast_remove ''a'' (RayCast_add ''b'' 2 (RayCast_add ''a'' 1 RayCast_new))
   = \<lparr>raycastObjectMap = [(''a'', [1]), (''b'', [2])],
      raycastObjects = [Arr ''a'', Arr ''b'']\<rparr>
   \<and> held (RayCast_remove ''a'' (RayCast_add ''b'' 2 (RayCast_add ''a'' 1 RayCast_new)))
     = [1, 2]"
  by (simp add: RayCast_remove_def RayCast_add_def RayCast_new_def held_def Map_keys_def
      splice1_def Let_def)

section \<open>Theorems: messages\<close>

lemma broadcastTo_unregistered:
  "Map_get (sceneObjectMap s) t = None \<Longrightarrow>
   broadcastTo f t d s
   = s\<lparr>messageMap :=
         Map_set t (pending s t @ [\<lparr>msg_from = f, msg_to = t, msg_data = d\<rparr>]) (messageMap s)\<rparr>"
  by (simp add: broadcastTo_def pending_def split: option.split)

lemma broadcasts_unregistered:
  "Map_get (sceneObjectMap s) t = None \<Longrightarrow>
   (let s' = foldl (\<lambda>s (f, d). broadcastTo f t d s) s fds
    in sceneObjectMap s' = sceneObjectMap s \<and> calls s' = calls s \<and>
       pending s' t = pending s t @ map (\<lambda>(f, d). \<lparr>msg_from = f, msg_to = t, msg_data = d\<rparr>) fds)"
proof (induction fds arbitrary: s)
  case Nil
  then show ?case by simp
next
  case (Cons fd fds)
  obtain f d where fd: "fd = (f, d)" by (cases fd)
  let ?s1 = "broadcastTo f t d s"
  have s1: "?s1 = s\<lparr>messageMap :=
         Map_set t (pending s t @ [\<lparr>msg_from = f, msg_to = t, msg_data = d\<rparr>]) (messageMap s)\<rparr>"
    using Cons.prems by (rule broadcastTo_unregistered)
  have reg: "Map_get (sceneObjectMap ?s1) t = None" using Cons.prems by (simp add: s1)
  have p1: "pending ?s1 t = pending s t @ [\<lparr>msg_from = f, msg_to = t, msg_data = d\<rparr>]"
    by (simp add: s1 pending_def Map_get_set)
  from Cons.IH [OF reg] show ?case
    by (simp add: fd Let_def p1) (simp add: s1)
qed

text \<open>
  C1. While a name is not registered, \<open>broadcastTo\<close> appends the message to the queue
  the mailbox holds for that name and calls no hook. \<open>register\<close> ends by calling the
  message hook of the object once for each queued message of its name, in the order of
  the queue, after which the mailbox has no entry for the name. So the messages
  \<open>fds\<close> sent one after another to a name that is not registered reach the object that
  registers under the name in the order they were sent, after what was queued before.
\<close>

theorem C1_mailbox_delivery:
  "(Map_get (sceneObjectMap s) to_name = None \<longrightarrow>
      pending (broadcastTo from_name to_name data s) to_name
        = pending s to_name @ [\<lparr>msg_from = from_name, msg_to = to_name, msg_data = data\<rparr>]
      \<and> calls (broadcastTo from_name to_name data s) = calls s
      \<and> sceneObjectMap (broadcastTo from_name to_name data s) = sceneObjectMap s)
   \<and> calls (register h ob s)
       = calls s
         @ (if isReady (h ob) then add_calls (h ob) @ [OnSceneStart ob] else [])
         @ deliveries ob (pending s (name (h ob)))
   \<and> Map_get (messageMap (register h ob s)) (name (h ob)) = None
   \<and> (Map_get (sceneObjectMap s) (name (h ob)) = None \<longrightarrow>
        calls (register h ob (foldl (\<lambda>s (f, d). broadcastTo f (name (h ob)) d s) s fds))
        = calls s
          @ (if isReady (h ob) then add_calls (h ob) @ [OnSceneStart ob] else [])
          @ deliveries ob (pending s (name (h ob)))
          @ map (\<lambda>(f, d). OnMessage ob f d) fds)"
proof -
  have a: "Map_get (sceneObjectMap s) to_name = None \<longrightarrow>
      pending (broadcastTo from_name to_name data s) to_name
        = pending s to_name @ [\<lparr>msg_from = from_name, msg_to = to_name, msg_data = data\<rparr>]
      \<and> calls (broadcastTo from_name to_name data s) = calls s
      \<and> sceneObjectMap (broadcastTo from_name to_name data s) = sceneObjectMap s"
    by (simp add: broadcastTo_unregistered pending_def Map_get_set)
  have b: "calls (register h ob s)
       = calls s
         @ (if isReady (h ob) then add_calls (h ob) @ [OnSceneStart ob] else [])
         @ deliveries ob (pending s (name (h ob)))" for s :: "'a SceneManager"
    by (simp add: register_eq)
  have c: "Map_get (messageMap (register h ob s)) (name (h ob)) = None"
    by (simp add: register_eq Map_get_delete)
  have d: "Map_get (sceneObjectMap s) (name (h ob)) = None \<longrightarrow>
        calls (register h ob (foldl (\<lambda>s (f, d). broadcastTo f (name (h ob)) d s) s fds))
        = calls s
          @ (if isReady (h ob) then add_calls (h ob) @ [OnSceneStart ob] else [])
          @ deliveries ob (pending s (name (h ob)))
          @ map (\<lambda>(f, d). OnMessage ob f d) fds"
  proof
    assume u: "Map_get (sceneObjectMap s) (name (h ob)) = None"
    from broadcasts_unregistered [OF u, of fds]
    show "calls (register h ob (foldl (\<lambda>s (f, d). broadcastTo f (name (h ob)) d s) s fds))
        = calls s
          @ (if isReady (h ob) then add_calls (h ob) @ [OnSceneStart ob] else [])
          @ deliveries ob (pending s (name (h ob)))
          @ map (\<lambda>(f, d). OnMessage ob f d) fds"
      by (simp add: b Let_def deliveries_def case_prod_beta comp_def)
  qed
  from a b c d show ?thesis by blast
qed

theorem C1_mailbox_delivery_witness:
  "Map_get (sceneObjectMap (SceneManager_new :: nat SceneManager)) ''Model'' = None
   \<and> pending (broadcastTo ''Camera'' ''Model'' 5 (SceneManager_new :: nat SceneManager)) ''Model''
     = [\<lparr>msg_from = ''Camera'', msg_to = ''Model'', msg_data = 5\<rparr>]
   \<and> calls (register scene_loaded 1
        (foldl (\<lambda>s (f, d). broadcastTo f ''Model'' d s) (SceneManager_new :: nat SceneManager)
           [(''Camera'', 5), (''Lamp'', 6)]))
     = [SceneRenderer_add 7 False, SceneRenderer_add 8 False, OnSceneStart 1,
        OnMessage 1 ''Camera'' 5, OnMessage 1 ''Lamp'' 6]
   \<and> Map_get (messageMap (register scene_loaded 1 (SceneManager_new :: nat SceneManager)))
        ''Model'' = None"
  using C1_mailbox_delivery [of "SceneManager_new :: nat SceneManager" "''Model''" "''Camera''" 5
      scene_loaded 1 "[(''Camera'', 5), (''Lamp'', 6)]"]
  by (simp add: scene_loaded_def SceneManager_new_def pending_def add_calls_def deliveries_def)

lemma Map_get_entry: "distinct (map fst m) \<Longrightarrow> (k, v) \<in> set m \<Longrightarrow> Map_get m k = Some v"
  by (induction m) (auto simp: rev_image_eqI)

lemma broadcastLoop_entries:
  "\<forall>(k, ob) \<in> set es. Map_get (sceneObjectMap s) k = Some ob \<Longrightarrow>
   broadcastLoop f d (map fst es) s
   = Inr (s\<lparr>calls := calls s @ map (\<lambda>(k, ob). OnMessage ob f d)
                                  (filter (\<lambda>(k, ob). k \<noteq> f) es)\<rparr>)"
proof (induction es arbitrary: s)
  case Nil
  then show ?case by simp
next
  case (Cons e es)
  obtain k ob where e: "e = (k, ob)" by (cases e)
  from Cons.prems have here: "Map_get (sceneObjectMap s) k = Some ob"
    and rest: "\<forall>(k, ob) \<in> set es. Map_get (sceneObjectMap s) k = Some ob"
    by (auto simp: e)
  show ?case
  proof (cases "k = f")
    case True
    with Cons.IH [OF rest] show ?thesis by (simp add: e)
  next
    case False
    let ?s1 = "call (OnMessage ob f d) s"
    have "\<forall>(k, ob) \<in> set es. Map_get (sceneObjectMap ?s1) k = Some ob"
      using rest by (simp add: call_def)
    from Cons.IH [OF this] False here show ?thesis by (simp add: e call_def)
  qed
qed

text \<open>
  C9. In a registry that holds each name once, as a JavaScript \<open>Map\<close> does and as
  the operations keep it (\<open>registry_stays_a_map\<close>), \<open>broadcastToAll\<close> returns without an error, and all it does is call the message hook
  once for each entry of the registry whose name is not \<open>from\<close>, in the order of the
  registry, with the sender and the data. The object registered under \<open>from\<close> gets no
  call, and the mailbox, like the rest of the state, stays as it was.
\<close>

theorem C9_broadcastToAll:
  assumes "distinct (Map_keys (sceneObjectMap s))"
  shows "broadcastToAll from_name data s
         = Inr (s\<lparr>calls := calls s @ map (\<lambda>(k, ob). OnMessage ob from_name data)
                                        (filter (\<lambda>(k, ob). k \<noteq> from_name) (sceneObjectMap s))\<rparr>)"
proof -
  have "\<forall>(k, ob) \<in> set (sceneObjectMap s). Map_get (sceneObjectMap s) k = Some ob"
    using assms by (auto simp: Map_keys_def Map_get_entry)
  from broadcastLoop_entries [OF this] show ?thesis
    by (simp add: broadcastToAll_def Map_keys_def)
qed

theorem C9_broadcastToAll_witness:
  "distinct (Map_keys (sceneObjectMap manager1))
   \<and> broadcastToAll ''Model'' 5 manager1
     = Inr (manager1\<lparr>calls := calls manager1
                                @ [OnMessage 0 ''Model'' 5, OnMessage 2 ''Model'' 5]\<rparr>)"
proof -
  have h: "distinct (Map_keys (sceneObjectMap manager1))"
    by (simp add: manager1_eq Map_keys_def)
  from C9_broadcastToAll [OF h, of "''Model''" 5] h show ?thesis
    by (simp add: manager1_eq)
qed

section \<open>Theorems: registering and unregistering\<close>

text \<open>
  C3, as the claim states it, fails for an object that reports neither drawable nor
  ready, such as the lamp while the scene loads: \<open>register\<close> stores it and does no more.
  The renderer is not asked to add its light, its start hook is not called, and it is
  not put in the awaiting set either.
\<close>

theorem C3_not_drawable_not_ready:
  "\<not> isDrawable (scene_loading 2)
   \<and> calls (register scene_loading 2 (SceneManager_new :: nat SceneManager)) = []
   \<and> OnSceneStart 2 \<notin> set (calls (register scene_loading 2 (SceneManager_new :: nat SceneManager)))
   \<and> SceneRenderer_add 9 False
       \<notin> set (calls (register scene_loading 2 (SceneManager_new :: nat SceneManager)))
   \<and> inactiveObjNameMap (register scene_loading 2 (SceneManager_new :: nat SceneManager)) = []"
  by (simp add: register_def checkForMessages_def scene_loading_def scene_loaded_def
      SceneManager_new_def Let_def)

text \<open>
  C3, amended. \<open>register\<close> stores the object under its name. If the object reports
  drawable and not ready, its name is put in the awaiting set and neither the renderer
  nor the start hook is called. If it reports ready, drawable or not, the renderer is
  asked to add each drawable (with the flag that says whether the object has lights) and
  then each light, every ray-castable drawable is added to the RayCast under the
  object's name, and the start hook is called. If it reports neither drawable nor
  ready, it is neither parked nor added and its start hook is not called. In every case
  the queued messages of its name are then delivered and the queue is removed.
\<close>

theorem C3_register_by_readiness:
  "calls (register h ob s)
     = calls s
       @ (if isReady (h ob) then add_calls (h ob) @ [OnSceneStart ob] else [])
       @ deliveries ob (pending s (name (h ob)))
   \<and> inactiveObjNameMap (register h ob s)
     = (if isDrawable (h ob) \<and> \<not> isReady (h ob)
        then Map_set (name (h ob)) () (inactiveObjNameMap s)
        else inactiveObjNameMap s)
   \<and> raycaster (register h ob s)
     = (if isReady (h ob)
        then foldl (\<lambda>r d. RayCast_add (name (h ob)) (d_object d) r) (raycaster s)
               (filter isRayCastable (getDrawables (h ob)))
        else raycaster s)
   \<and> Map_get (sceneObjectMap (register h ob s)) (name (h ob)) = Some ob
   \<and> Map_get (messageMap (register h ob s)) (name (h ob)) = None"
  by (simp add: register_eq Map_get_set Map_get_delete)

theorem C3_register_by_readiness_witness:
  "calls (register scene_loading 1
      (broadcastTo ''Camera'' ''Model'' 5 (SceneManager_new :: nat SceneManager)))
     = [OnMessage 1 ''Camera'' 5]
   \<and> inactiveObjNameMap (register scene_loading 1
        (broadcastTo ''Camera'' ''Model'' 5 (SceneManager_new :: nat SceneManager)))
     = [(''Model'', ())]
   \<and> calls (register scene_loaded 1
        (broadcastTo ''Camera'' ''Model'' 5 (SceneManager_new :: nat SceneManager)))
     = [SceneRenderer_add 7 False, SceneRenderer_add 8 False, OnSceneStart 1,
        OnMessage 1 ''Camera'' 5]
   \<and> raycaster (register scene_loaded 1
        (broadcastTo ''Camera'' ''Model'' 5 (SceneManager_new :: nat SceneManager)))
     = \<lparr>raycastObjectMap = [(''Model'', [7, 8])], raycastObjects = [Obj 7, Obj 8]\<rparr>"
  using C3_register_by_readiness [of scene_loading 1
      "broadcastTo ''Camera'' ''Model'' 5 (SceneManager_new :: nat SceneManager)"]
    C3_register_by_readiness [of scene_loaded 1
      "broadcastTo ''Camera'' ''Model'' 5 (SceneManager_new :: nat SceneManager)"]
  by (simp add: scene_loading_def scene_loaded_def SceneManager_new_def broadcastTo_def
      pending_def add_calls_def deliveries_def RayCast_new_def RayCast_add_def)

text \<open>
  C4. The claim is that no name outside the registry remains in the awaiting set. The
  code, with a camera active, at \<open>register(model)\<close> with the model drawable and not
  ready, then \<open>unregister("Model")\<close>: \<open>unregister\<close> deletes the name from the registry
  and leaves it in the awaiting set. The next tick of the render loop looks the name
  up in \<open>queryReadyObjects\<close>, gets \<open>undefined\<close> and throws a TypeError.
\<close>

theorem C4_stale_awaiting_name:
  "Map_keys (inactiveObjNameMap
      (unregister scene_loading ''Model'' (register scene_loading 1 manager0))) = [''Model'']
   \<and> Map_get (sceneObjectMap
      (unregister scene_loading ''Model'' (register scene_loading 1 manager0))) ''Model'' = None
   \<and> Map_keys (sceneObjectMap
      (unregister scene_loading ''Model'' (register scene_loading 1 manager0))) = [''Camera'']
   \<and> (\<exists>s'. renderLoop scene_loaded 800 600
              (unregister scene_loading ''Model'' (register scene_loading 1 manager0))
            = Inl (TypeError, s'))"
  by (simp add: manager0_def register_def unregister_def checkForMessages_def
      removeFromScene_def addToScene_def renderLoop_def queryReadyObjects_def Map_size_def
      Map_keys_def call_def scene_loading_def scene_loaded_def SceneManager_new_def
      RayCast_new_def RayCast_remove_def Let_def)

text \<open>
  The same stale name makes a start hook fire twice: the model is registered while not
  ready, unregistered, registered again once it is ready (which starts it), and the next
  \<open>queryReadyObjects\<close> finds its name still awaiting and starts it again.
\<close>

lemma stale_awaiting_double_start:
  "\<exists>s'. queryReadyObjects scene_loaded (register scene_loaded 1 (unregister scene_loading ''Model''
        (register scene_loading 1 (SceneManager_new :: nat SceneManager)))) = Inr s'
     \<and> count_list (calls s') (OnSceneStart 1) = 2"
  by (simp add: register_def unregister_def checkForMessages_def removeFromScene_def
      addToScene_def queryReadyObjects_def Map_size_def Map_keys_def
      call_def scene_loading_def scene_loaded_def SceneManager_new_def RayCast_new_def
      RayCast_remove_def RayCast_add_def Let_def)

text \<open>
  C5, as the claim states it, fails for a registered name whose object is drawable and
  still not ready: after \<open>unregister\<close> and \<open>register\<close> of the same object the renderer
  has been asked to add nothing and the start hook has not been called.
\<close>

theorem C5_not_ready_not_restarted:
  "Map_get (sceneObjectMap (register scene_loading 1 (SceneManager_new :: nat SceneManager)))
     ''Model'' = Some 1
   \<and> calls (register scene_loading 1 (unregister scene_loading ''Model''
        (register scene_loading 1 (SceneManager_new :: nat SceneManager))))
     = [SceneRenderer_remove 7, SceneRenderer_remove 8, OnSceneEnd 1]
   \<and> count_list (calls (register scene_loading 1 (unregister scene_loading ''Model''
        (register scene_loading 1 (SceneManager_new :: nat SceneManager))))) (OnSceneStart 1) = 0"
  by (simp add: register_def unregister_def checkForMessages_def removeFromScene_def
      call_def scene_loading_def scene_loaded_def SceneManager_new_def RayCast_new_def
      RayCast_remove_def Let_def)

text \<open>
  C5, amended. For a name that is registered and not in the awaiting set, whose object
  reports ready when it is registered again: \<open>unregister(name)\<close> followed by \<open>register\<close>
  of the same object asks the renderer to remove its drawables and lights, calls its
  end hook, asks the renderer to add them again and calls its start hook, exactly once
  over the two operations; afterwards the name is registered and not in the awaiting
  set.
\<close>

theorem C5_reregister_active:
  assumes "Map_get (sceneObjectMap s) nm = Some ob"
    and "name (h ob) = nm"
    and "Map_get (inactiveObjNameMap s) nm = None"
    and "isReady (h ob)"
  shows "calls (register h ob (unregister h nm s))
         = calls s @ remove_calls (h ob) @ [OnSceneEnd ob]
           @ add_calls (h ob) @ [OnSceneStart ob] @ deliveries ob (pending s nm)
         \<and> count_list (calls (register h ob (unregister h nm s))) (OnSceneStart ob)
           = count_list (calls s) (OnSceneStart ob) + 1
         \<and> Map_get (sceneObjectMap (register h ob (unregister h nm s))) nm = Some ob
         \<and> Map_get (inactiveObjNameMap (register h ob (unregister h nm s))) nm = None"
proof -
  let ?u = "unregister h nm s"
  have u: "?u = s\<lparr>raycaster := foldl (\<lambda>r d. RayCast_remove (name (h ob)) r) (raycaster s)
                            (filter isRayCastable (getDrawables (h ob))),
            sceneObjectMap := Map_delete nm (sceneObjectMap s),
            calls := calls s @ remove_calls (h ob) @ [OnSceneEnd ob]\<rparr>"
    using assms(1) by (simp add: unregister_eq)
  have p: "pending ?u nm = pending s nm" by (simp add: u pending_def)
  have c: "calls (register h ob ?u)
         = calls s @ remove_calls (h ob) @ [OnSceneEnd ob]
           @ add_calls (h ob) @ [OnSceneStart ob] @ deliveries ob (pending s nm)"
    using assms(2,4) p by (simp add: register_eq) (simp add: u)
  have n: "count_list (calls (register h ob ?u)) (OnSceneStart ob)
           = count_list (calls s) (OnSceneStart ob) + 1"
    by (simp add: c no_start_in_renderer_calls)
  have r: "Map_get (sceneObjectMap (register h ob ?u)) nm = Some ob"
    using assms(2) by (simp add: register_eq Map_get_set)
  have a: "Map_get (inactiveObjNameMap (register h ob ?u)) nm = None"
    using assms(2,3,4) by (simp add: register_eq) (simp add: u)
  from c n r a show ?thesis by blast
qed

theorem C5_reregister_active_witness:
  "Map_get (sceneObjectMap manager1) ''Model'' = Some 1
   \<and> name (scene_loaded 1) = ''Model''
   \<and> Map_get (inactiveObjNameMap manager1) ''Model'' = None
   \<and> isReady (scene_loaded 1)
   \<and> calls (register scene_loaded 1 (unregister scene_loaded ''Model'' manager1))
     = calls manager1
       @ [SceneRenderer_remove 7, SceneRenderer_remove 8, OnSceneEnd 1,
          SceneRenderer_add 7 False, SceneRenderer_add 8 False, OnSceneStart 1]
   \<and> count_list (calls (register scene_loaded 1 (unregister scene_loaded ''Model'' manager1)))
        (OnSceneStart 1) = 2
   \<and> Map_get (inactiveObjNameMap
        (register scene_loaded 1 (unregister scene_loaded ''Model'' manager1))) ''Model'' = None"
proof -
  have h1: "Map_get (sceneObjectMap manager1) ''Model'' = Some 1"
    and h2: "name (scene_loaded 1) = ''Model''"
    and h3: "Map_get (inactiveObjNameMap manager1) ''Model'' = None"
    and h4: "isReady (scene_loaded 1)"
    by (simp_all add: manager1_eq scene_loaded_def)
  from C5_reregister_active [where s = manager1 and nm = "''Model''" and ob = 1
      and h = scene_loaded] h1 h2 h3 h4 show ?thesis
    by (simp add: manager1_eq scene_loaded_def remove_calls_def add_calls_def deliveries_def
        pending_def)
qed

section \<open>Theorems: ray casting from the camera\<close>

text \<open>
  C6. \<open>shootRayFromCamera\<close> returns the empty sequence and changes nothing when the
  raster coordinate is undefined or lies outside the viewport (\<open>x\<close> in \<open>[0, width)\<close>,
  \<open>y\<close> in \<open>[0, height)\<close>). For a coordinate inside, the normalized device coordinates
  \<open>x / width * 2 - 1\<close> and \<open>-(y / height) * 2 + 1\<close> lie in \<open>[-1, 1)\<close> and \<open>(-1, 1]\<close>, the
  second falling as \<open>y\<close> grows, and it is at this point that the RayCast is queried:
  with an active camera the hits returned are those of the intersection test at these
  coordinates, and with none the query throws a TypeError.
\<close>

theorem C6_viewport_and_ndc:
  "((rasterCoord = None \<or> (\<exists>x y. rasterCoord = Some (x, y)
        \<and> \<not> (0 \<le> x \<and> x < innerWidth \<and> 0 \<le> y \<and> y < innerHeight)))
      \<longrightarrow> shootRayFromCamera intersectObjects innerWidth innerHeight rasterCoord outlineNearest s
          = Inr ([], s))
   \<and> (0 \<le> x \<and> x < innerWidth \<and> 0 \<le> y \<and> y < innerHeight \<longrightarrow>
        - 1 \<le> x / innerWidth * 2 - 1 \<and> x / innerWidth * 2 - 1 < 1
        \<and> - 1 < - (y / innerHeight) * 2 + 1 \<and> - (y / innerHeight) * 2 + 1 \<le> 1
        \<and> (activeCameraManager s = None \<longrightarrow>
             shootRayFromCamera intersectObjects innerWidth innerHeight (Some (x, y))
               outlineNearest s = Inl (TypeError, s))
        \<and> (\<forall>cam. activeCameraManager s = Some cam \<longrightarrow>
             (\<exists>s'. shootRayFromCamera intersectObjects innerWidth innerHeight (Some (x, y))
                     outlineNearest s
                   = Inr (intersectObjects
                            (x / innerWidth * 2 - 1, - (y / innerHeight) * 2 + 1) cam
                            (raycastObjects (raycaster s)), s'))))"
proof -
  have out: "(rasterCoord = None \<or> (\<exists>x y. rasterCoord = Some (x, y)
        \<and> \<not> (0 \<le> x \<and> x < innerWidth \<and> 0 \<le> y \<and> y < innerHeight)))
      \<longrightarrow> shootRayFromCamera intersectObjects innerWidth innerHeight rasterCoord outlineNearest s
          = Inr ([], s)"
    by (auto simp: shootRayFromCamera_def)
  have inside: "- 1 \<le> x / innerWidth * 2 - 1 \<and> x / innerWidth * 2 - 1 < 1
        \<and> - 1 < - (y / innerHeight) * 2 + 1 \<and> - (y / innerHeight) * 2 + 1 \<le> 1"
    if v: "0 \<le> x \<and> x < innerWidth \<and> 0 \<le> y \<and> y < innerHeight"
  proof -
    from v have w: "0 < innerWidth" and h: "0 < innerHeight" by auto
    from v w have "0 \<le> x / innerWidth" "x / innerWidth < 1" by simp_all
    moreover from v h have "0 \<le> y / innerHeight" "y / innerHeight < 1" by simp_all
    ultimately show ?thesis by argo
  qed
  have nocam: "activeCameraManager s = None \<longrightarrow>
             shootRayFromCamera intersectObjects innerWidth innerHeight (Some (x, y))
               outlineNearest s = Inl (TypeError, s)"
    if v: "0 \<le> x \<and> x < innerWidth \<and> 0 \<le> y \<and> y < innerHeight"
    using v by (simp add: shootRayFromCamera_def raycastFromCamera_def)
  have cam: "\<forall>cam. activeCameraManager s = Some cam \<longrightarrow>
             (\<exists>s'. shootRayFromCamera intersectObjects innerWidth innerHeight (Some (x, y))
                     outlineNearest s
                   = Inr (intersectObjects
                            (x / innerWidth * 2 - 1, - (y / innerHeight) * 2 + 1) cam
                            (raycastObjects (raycaster s)), s'))"
    if v: "0 \<le> x \<and> x < innerWidth \<and> 0 \<le> y \<and> y < innerHeight"
    using v by (auto simp: shootRayFromCamera_def raycastFromCamera_def Let_def)
  from out inside nocam cam show ?thesis by blast
qed

theorem C6_viewport_and_ndc_witness:
  "shootRayFromCamera intersect0 800 600 None (Some True) manager1 = Inr ([], manager1)
   \<and> \<not> ((0::real) \<le> 900 \<and> (900::real) < 800 \<and> (0::real) \<le> 10 \<and> (10::real) < 600)
   \<and> shootRayFromCamera intersect0 800 600 (Some (900, 10)) (Some True) manager1
     = Inr ([], manager1)
   \<and> (0::real) \<le> 200 \<and> (200::real) < 800 \<and> (0::real) \<le> 150 \<and> (150::real) < 600
   \<and> - 1 \<le> (200::real) / 800 * 2 - 1 \<and> (200::real) / 800 * 2 - 1 < 1
   \<and> - 1 < - ((150::real) / 600) * 2 + 1 \<and> - ((150::real) / 600) * 2 + 1 \<le> 1
   \<and> activeCameraManager manager1 = Some 0
   \<and> (\<exists>s'. shootRayFromCamera intersect0 800 600 (Some (200, 150)) (Some True) manager1
           = Inr (intersect0 (200 / 800 * 2 - 1, - (150 / 600) * 2 + 1) 0
                    (raycastObjects (raycaster manager1)), s'))"
proof -
  have v: "(0::real) \<le> 200 \<and> (200::real) < 800 \<and> (0::real) \<le> 150 \<and> (150::real) < 600"
    by simp
  have c: "activeCameraManager manager1 = Some 0" by (simp add: manager1_eq)
  have w: "\<not> ((0::real) \<le> 900 \<and> (900::real) < 800 \<and> (0::real) \<le> 10 \<and> (10::real) < 600)"
    by simp
  from C6_viewport_and_ndc [of None 800 600 intersect0 "Some True" manager1 200 150]
    C6_viewport_and_ndc [of "Some (900, 10)" 800 600 intersect0 "Some True" manager1 200 150]
    v c w
  show ?thesis by blast
qed

text \<open>
  C7. For a raster coordinate inside the viewport and an active camera,
  \<open>shootRayFromCamera\<close> returns the hits of the intersection test as the test gave them.
  The test is the library's and returns its hits by distance, nearest first; with that
  the returned sequence is ordered by non-decreasing distance and its first hit is a
  nearest one. When \<open>outlineNearest\<close> is true and there is a hit, the one call made is
  the renderer's outline call, with the object of the first hit and the camera;
  otherwise nothing is called.
\<close>

theorem C7_hits_nearest_first:
  assumes "0 \<le> x \<and> x < innerWidth \<and> 0 \<le> y \<and> y < innerHeight"
    and "activeCameraManager s = Some cam"
    and "hits = intersectObjects (x / innerWidth * 2 - 1, - (y / innerHeight) * 2 + 1) cam
                  (raycastObjects (raycaster s))"
    and "sorted (map distance hits)"
  shows "shootRayFromCamera intersectObjects innerWidth innerHeight (Some (x, y)) outlineNearest s
         = Inr (hits,
                if outlineNearest = Some True \<and> hits \<noteq> []
                then s\<lparr>calls := calls s @ [SceneRenderer_outlineObjects [h_object (hd hits)] cam]\<rparr>
                else s)
         \<and> sorted (map distance hits)
         \<and> (\<forall>ht \<in> set hits. distance (hd hits) \<le> distance ht)"
proof -
  have nearest: "\<forall>ht \<in> set hits. distance (hd hits) \<le> distance ht"
    using assms(4) by (cases hits) auto
  have "shootRayFromCamera intersectObjects innerWidth innerHeight (Some (x, y)) outlineNearest s
         = Inr (hits,
                if outlineNearest = Some True \<and> hits \<noteq> []
                then s\<lparr>calls := calls s @ [SceneRenderer_outlineObjects [h_object (hd hits)] cam]\<rparr>
                else s)"
    using assms(1,2,3)
    by (auto simp: shootRayFromCamera_def raycastFromCamera_def Let_def call_def hd_conv_nth)
  with nearest assms(4) show ?thesis by blast
qed

theorem C7_hits_nearest_first_witness:
  "(0::real) \<le> 200 \<and> (200::real) < 800 \<and> (0::real) \<le> 150 \<and> (150::real) < 600
   \<and> activeCameraManager manager1 = Some 0
   \<and> intersect0 (200 / 800 * 2 - 1, - (150 / 600) * 2 + 1) 0 (raycastObjects (raycaster manager1))
     = [\<lparr>distance = 7, h_object = 7\<rparr>, \<lparr>distance = 8, h_object = 8\<rparr>]
   \<and> sorted (map distance [\<lparr>distance = 7, h_object = 7\<rparr>, \<lparr>distance = 8, h_object = 8\<rparr>])
   \<and> shootRayFromCamera intersect0 800 600 (Some (200, 150)) (Some True) manager1
     = Inr ([\<lparr>distance = 7, h_object = 7\<rparr>, \<lparr>distance = 8, h_object = 8\<rparr>],
            manager1\<lparr>calls := calls manager1 @ [SceneRenderer_outlineObjects [7] 0]\<rparr>)"
proof -
  have v: "(0::real) \<le> 200 \<and> (200::real) < 800 \<and> (0::real) \<le> 150 \<and> (150::real) < 600"
    by simp
  have c: "activeCameraManager manager1 = Some 0" by (simp add: manager1_eq)
  have i: "intersect0 (200 / 800 * 2 - 1, - (150 / 600) * 2 + 1) 0
             (raycastObjects (raycaster manager1))
           = [\<lparr>distance = 7, h_object = 7\<rparr>, \<lparr>distance = 8, h_object = 8\<rparr>]"
    by (simp add: manager1_eq intersect0_def)
  have o: "sorted (map distance [\<lparr>distance = 7, h_object = 7\<rparr>, \<lparr>distance = 8, h_object = 8\<rparr>])"
    by simp
  from C7_hits_nearest_first [where x = 200 and innerWidth = 800 and y = 150
      and innerHeight = 600 and s = manager1 and cam = 0 and intersectObjects = intersect0
      and hits = "[\<lparr>distance = 7, h_object = 7\<rparr>, \<lparr>distance = 8, h_object = 8\<rparr>]"
      and outlineNearest = "Some True", OF v c i [symmetric] o] v c i o
  show ?thesis by simp
qed

end
